theory Spec2Isabelle
  imports Main "HOL-Library.Word"
begin

unbundle bit_operations_syntax

section \<open>JavaScript strings\<close>

text \<open>
  A JavaScript string is a sequence of UTF-16 code units; \<open>length\<close>, \<open>substring\<close>,
  \<open>split\<close>, \<open>trim\<close> and \<open>replace\<close> all work on code units. \<open>js\<close> embeds an ASCII
  literal.
\<close>

type_synonym js_string = "16 word list"

definition js :: "string \<Rightarrow> js_string" where
  "js s = map (\<lambda>c. of_nat (of_char c)) s"

text \<open>
  \<open>String.prototype.trim\<close> removes WhiteSpace and LineTerminator code units from both
  ends: TAB, LF, VT, FF, CR, SP, NBSP, the Unicode space separators, LS, PS and the
  byte order mark.
\<close>

definition is_js_whitespace :: "16 word \<Rightarrow> bool" where
  "is_js_whitespace c \<longleftrightarrow>
     c = 0x0009 \<or> c = 0x000A \<or> c = 0x000B \<or> c = 0x000C \<or> c = 0x000D \<or>
     c = 0x0020 \<or> c = 0x00A0 \<or> c = 0x1680 \<or> (0x2000 \<le> c \<and> c \<le> 0x200A) \<or>
     c = 0x2028 \<or> c = 0x2029 \<or> c = 0x202F \<or> c = 0x205F \<or> c = 0x3000 \<or>
     c = 0xFEFF"

definition js_trim :: "js_string \<Rightarrow> js_string" where
  "js_trim s = rev (dropWhile is_js_whitespace (rev (dropWhile is_js_whitespace s)))"

text \<open>
  \<open>s.split(sep)\<close> for a separator of one code unit: the pieces between the
  separators, the empty ones included; the empty string gives one empty piece.
\<close>

fun js_split :: "'a \<Rightarrow> 'a list \<Rightarrow> 'a list list" where
  "js_split sep [] = [[]]"
| "js_split sep (c # cs) =
     (if c = sep then [] # js_split sep cs
      else (case js_split sep cs of
              [] \<Rightarrow> [[c]]
            | piece # pieces \<Rightarrow> (c # piece) # pieces))"

text \<open>
  \<open>s.replace(pat, rep)\<close> for a string pattern: the first occurrence of \<open>pat\<close>, found
  from the left, is replaced and the rest is kept. (The replacements used here hold
  no \<open>$\<close>, so none of the replacement patterns applies.)
\<close>

fun js_replace :: "'a list \<Rightarrow> 'a list \<Rightarrow> 'a list \<Rightarrow> 'a list" where
  "js_replace pat rep [] = (if pat = [] then rep else [])"
| "js_replace pat rep (c # cs) =
     (if take (length pat) (c # cs) = pat then rep @ drop (length pat) (c # cs)
      else c # js_replace pat rep cs)"

text \<open>Template literals print a counter in decimal.\<close>

definition digit_char :: "nat \<Rightarrow> char" where
  "digit_char d = ''0123456789'' ! d"

function show_nat :: "nat \<Rightarrow> string" where
  "show_nat n =
     (if n < 10 then [digit_char n] else show_nat (n div 10) @ [digit_char (n mod 10)])"
  by pat_completeness auto
termination
  by (relation "measure id") auto

declare show_nat.simps [simp del]


section \<open>CSV import: \<open>CSV.parse_csv_to_pagadores\<close>\<close>

record PagadorCSV =
  referencia :: js_string
  valor :: js_string

text \<open>
  The value pushed for the second field:
  \<^verbatim>\<open>valor.replace("R$ ", "").replace("R$", "").replace(",", ".")\<close>.
\<close>

definition strip_valor :: "js_string \<Rightarrow> js_string" where
  "strip_valor v =
     js_replace (js '','') (js ''.'')
       (js_replace (js ''R$'') [] (js_replace (js ''R$ '') [] v))"

text \<open>
  The body of \<open>lines.forEach\<close>: the line is split at \<open>;\<close> (code unit 0x3B), the
  pieces are trimmed, and the first two are taken by destructuring. A missing second
  piece is \<open>undefined\<close>, which is falsy like the empty string.
\<close>

definition push_line :: "PagadorCSV list \<Rightarrow> js_string \<Rightarrow> PagadorCSV list" where
  "push_line pagadores line =
     (case map js_trim (js_split 0x3B line) of
        [] \<Rightarrow> pagadores
      | [r] \<Rightarrow> pagadores
      | r # v # _ \<Rightarrow>
          if r \<noteq> [] \<and> v \<noteq> []
          then pagadores @ [\<lparr>referencia = take 20 r, valor = strip_valor v\<rparr>]
          else pagadores)"

text \<open>
  The argument is the text after \<open>csv.toString()\<close>. It is split at LF (0x0A), every
  line is trimmed and the empty lines are filtered out.
\<close>

definition parse_csv_to_pagadores :: "js_string \<Rightarrow> PagadorCSV list" where
  "parse_csv_to_pagadores csv =
     (let lines = filter (\<lambda>line. line \<noteq> []) (map js_trim (js_split 0x0A csv))
      in foldl push_line [] lines)"

text \<open>
  The guard \<open>referencia && valor\<close> as a predicate on a raw line of the file: both of
  the first two trimmed pieces of the trimmed line are there and non-empty.
\<close>

definition has_both_fields :: "js_string \<Rightarrow> bool" where
  "has_both_fields line =
     (case map js_trim (js_split 0x3B (js_trim line)) of
        r # v # _ \<Rightarrow> r \<noteq> [] \<and> v \<noteq> []
      | _ \<Rightarrow> False)"

text \<open>
  The object pushed for a raw line of the file that passes the guard (lines 109 to 112):
  the first 20 code units of the first piece, and the second piece after the three
  replacements. A line with fewer than two pieces pushes nothing; the last case only
  makes the function total.
\<close>

definition pagador_of_line :: "js_string \<Rightarrow> PagadorCSV" where
  "pagador_of_line line =
     (case map js_trim (js_split 0x3B (js_trim line)) of
        r # v # _ \<Rightarrow> \<lparr>referencia = take 20 r, valor = strip_valor v\<rparr>
      | _ \<Rightarrow> \<lparr>referencia = [], valor = []\<rparr>)"


section \<open>The payer rows of the form: \<open>Pix.adicionar_pagador\<close> and \<open>Pix.adicionar_pagador_csv\<close>\<close>

text \<open>
  The part of the DOM the two methods read back: an element with its tag, its \<open>id\<close>
  attribute (empty when it has none) and its child elements.
  \<open>querySelector_id i es\<close> is \<open>querySelector("#i")\<close> on a node whose children are
  \<open>es\<close>: the first descendant in document order whose id is \<open>i\<close>.
\<close>

datatype element = Element (tag: string) (elem_id: string) (children: "element list")

fun querySelector_id :: "string \<Rightarrow> element list \<Rightarrow> element option" where
  "querySelector_id i [] = None"
| "querySelector_id i (Element t a cs # es) =
     (if a = i then Some (Element t a cs)
      else (case querySelector_id i cs of
              Some e \<Rightarrow> Some e
            | None \<Rightarrow> querySelector_id i es))"

text \<open>
  A payer row of \<open>pagadores_div\<close>: its id and, for a row made from a CSV line, the
  values written into its two inputs.
\<close>

record row =
  row_id :: string
  prefill :: "PagadorCSV option"

text \<open>
  \<open>parent.appendChild(node)\<close>: a node that is already a child is moved to the end.
  A row stands for its element; the counter only grows, so no two rows share an id.
\<close>

definition appendChild :: "row list \<Rightarrow> row \<Rightarrow> row list" where
  "appendChild rows node = filter (\<lambda>r. r \<noteq> node) rows @ [node]"

datatype console_error = RemoveButtonNotFound

text \<open>
  The fields of a \<open>Pix\<close> object the two methods use. \<open>pagadores_div\<close> is \<open>None\<close>
  when \<open>document.querySelector\<close> found no element. \<open>qtd_pagadores\<close> is a JavaScript
  Number holding a count that starts at 1; it is exact below \<open>2^53\<close> and is modelled
  as a natural number.
\<close>

record Pix =
  pagadores_div :: "row list option"
  qtd_pagadores :: nat
  console :: "console_error list"

text \<open>
  The markup assigned to \<open>valor_div.innerHTML\<close> by \<open>adicionar_pagador\<close> interpolates
  the counter, the row id and \<open>SVGs.TRASH\<close> only, and the button's start tag stands
  before \<open>SVGs.TRASH\<close>: a label, and a div holding a span, the number input and the
  button. \<open>trash\<close> is the parse of \<open>SVGs.TRASH\<close>, a constant of
  \<open>constants/svg.json\<close>. Registering the click listener of the button changes none
  of the fields above and is left out of both methods.
\<close>

definition valor_div_children :: "element list \<Rightarrow> nat \<Rightarrow> element list" where
  "valor_div_children trash qtd =
     [Element ''label'' [] [],
      Element ''div'' []
        [Element ''span'' [] [],
         Element ''input'' (''pix-valor-pagador-'' @ show_nat qtd) [],
         Element ''button'' ''remove-pagador'' trash]]"

definition adicionar_pagador :: "element list \<Rightarrow> Pix \<Rightarrow> Pix" where
  "adicionar_pagador trash s =
     (case pagadores_div s of
        None \<Rightarrow> s
      | Some rows \<Rightarrow>
          let pagador_id = ''pagador-'' @ show_nat (qtd_pagadores s);
              new_div = \<lparr>row_id = pagador_id, prefill = None\<rparr>;
              remover_pagador_btn =
                querySelector_id ''remove-pagador'' (valor_div_children trash (qtd_pagadores s))
          in if remover_pagador_btn = None
             then s\<lparr>console := console s @ [RemoveButtonNotFound]\<rparr>
             else s\<lparr>pagadores_div := Some (appendChild rows new_div),
                    qtd_pagadores := qtd_pagadores s + 1\<rparr>)"

text \<open>
  \<open>adicionar_pagador_csv\<close> interpolates \<open>pagador.valor\<close>, a string of the imported
  file, unescaped into the markup in front of the button, so what the browser builds
  depends on that string: \<open>valor_div\<close> is the list of children it built. The row is
  appended and the counter incremented twice (lines 277 to 281).
\<close>

definition adicionar_pagador_csv :: "element list \<Rightarrow> PagadorCSV \<Rightarrow> Pix \<Rightarrow> Pix" where
  "adicionar_pagador_csv valor_div pagador s =
     (case pagadores_div s of
        None \<Rightarrow> s
      | Some rows \<Rightarrow>
          let pagador_id = ''pagador-'' @ show_nat (qtd_pagadores s);
              new_div = \<lparr>row_id = pagador_id, prefill = Some pagador\<rparr>;
              remover_pagador_btn = querySelector_id ''remove-pagador'' valor_div
          in if remover_pagador_btn = None \<and> qtd_pagadores s > 1
             then s\<lparr>console := console s @ [RemoveButtonNotFound]\<rparr>
             else
               let rows1 = appendChild rows new_div;
                   qtd1 = qtd_pagadores s + 1;
                   rows2 = appendChild rows1 new_div;
                   qtd2 = qtd1 + 1
               in s\<lparr>pagadores_div := Some rows2, qtd_pagadores := qtd2\<rparr>)"

text \<open>
  \<open>pagadores.forEach((pagador) => this.adicionar_pagador_csv(pagador))\<close> of
  \<open>importar_pagadores_csv\<close>, each payer with the children built for its markup.
\<close>

definition importar_pagadores :: "(element list \<times> PagadorCSV) list \<Rightarrow> Pix \<Rightarrow> Pix" where
  "importar_pagadores pagadores s =
     foldl (\<lambda>s' (valor_div, pagador). adicionar_pagador_csv valor_div pagador s') s pagadores"


section \<open>The payload encoder of \<open>utils/merchant\<close>\<close>

text \<open>
  \<open>gerar_pix\<close> hands every payer to \<open>M.criar_codigo_pix\<close> of \<open>utils/merchant\<close>, whose
  source is not among the files of this development. The definitions of this section
  are written from the specification of that encoder.
\<close>

text \<open>
  Modelled from the spec: the error kinds of the missing encoder, "MissingFieldError
  (required field empty after normalization), FieldTooLongError (encoded field exceeds
  99-byte capacity)".
\<close>

datatype payload_error = MissingFieldError | FieldTooLongError

text \<open>
  Modelled from the spec: the length of the missing \<open>encode_field\<close>, "zero-padded
  2-digit length". A payload is a string of bytes.
\<close>

definition pad2 :: "nat \<Rightarrow> string" where
  "pad2 n = [digit_char (n div 10), digit_char (n mod 10)]"

text \<open>
  Modelled from the spec: the missing \<open>encode_field\<close>, "id + zero-padded 2-digit
  length + value", which "fails with FieldTooLongError when length > 99", the length
  being the byte count of the value.
\<close>

definition encode_field :: "string \<Rightarrow> string \<Rightarrow> payload_error + string" where
  "encode_field i v =
     (if length v > 99 then Inl FieldTooLongError else Inr (i @ pad2 (length v) @ v))"

text \<open>
  Modelled from the spec: the concatenation of encoded fields "in order" in the missing
  builder; the first error is the result ("no partial payloads are ever returned").
\<close>

fun concat_fields :: "(payload_error + string) list \<Rightarrow> payload_error + string" where
  "concat_fields [] = Inr []"
| "concat_fields (f # fs) =
     (case f of
        Inl e \<Rightarrow> Inl e
      | Inr s \<Rightarrow> (case concat_fields fs of Inl e \<Rightarrow> Inl e | Inr t \<Rightarrow> Inr (s @ t)))"

text \<open>
  Modelled from the spec: the nested templates of the missing builder, "build the inner
  concatenation of sub-fields first, then wrap that whole string as the value of an
  outer field with its own id".
\<close>

definition encode_template ::
  "string \<Rightarrow> (payload_error + string) list \<Rightarrow> payload_error + string" where
  "encode_template i subfields =
     (case concat_fields subfields of Inl e \<Rightarrow> Inl e | Inr v \<Rightarrow> encode_field i v)"

text \<open>
  Modelled from the spec: one bit of the missing checksum, "polynomial 0x1021", "no
  input/output reflection": the register is shifted left, and the polynomial is added
  when the bit shifted out is set.
\<close>

definition crc16_bit :: "16 word \<Rightarrow> 16 word" where
  "crc16_bit crc =
     (if crc AND 0x8000 \<noteq> 0 then push_bit 1 crc XOR 0x1021 else push_bit 1 crc)"

text \<open>
  Modelled from the spec: one byte of the missing checksum, "byte by byte,
  most-significant-bit first per byte": the byte is added to the high half of the
  register, which then takes eight bit steps.
\<close>

definition crc16_byte :: "16 word \<Rightarrow> char \<Rightarrow> 16 word" where
  "crc16_byte crc b = (crc16_bit ^^ 8) (crc XOR push_bit 8 (of_char b))"

text \<open>
  Modelled from the spec: the value of the missing checksum, "initial value 0xFFFF",
  "no final XOR".
\<close>

definition crc16 :: "string \<Rightarrow> 16 word" where
  "crc16 data = foldl crc16_byte 0xFFFF data"

text \<open>
  Modelled from the spec: the digits of the missing checksum's result, "hex digits,
  uppercase".
\<close>

definition hex_digit :: "nat \<Rightarrow> char" where
  "hex_digit d = ''0123456789ABCDEF'' ! d"

text \<open>
  Modelled from the spec: the format of the missing checksum's result, "4 hex digits,
  uppercase, zero-padded".
\<close>

definition hex4 :: "nat \<Rightarrow> string" where
  "hex4 n = [hex_digit (n div 4096 mod 16), hex_digit (n div 256 mod 16),
             hex_digit (n div 16 mod 16), hex_digit (n mod 16)]"

text \<open>
  Modelled from the spec: the missing \<open>crc16_ccitt_false\<close>, from a byte sequence to a
  "4 hex-uppercase-digit string".
\<close>

definition crc16_ccitt_false :: "string \<Rightarrow> string" where
  "crc16_ccitt_false data = hex4 (unat (crc16 data))"

text \<open>
  Reading a string of hexadecimal digits back as a number, to say which number the
  four digits of a payload's trailer stand for.
\<close>

definition hex_digit_value :: "char \<Rightarrow> nat" where
  "hex_digit_value c =
     (if of_char c < (65 :: nat) then of_char c - 48 else of_char c - 55)"

definition hex_value :: "string \<Rightarrow> nat" where
  "hex_value s = foldl (\<lambda>acc c. 16 * acc + hex_digit_value c) 0 s"

text \<open>
  Modelled from the spec: the kinds of the missing encoder's \<open>PaymentKey\<close>,
  "kind in CPF, CNPJ, EMAIL, PHONE, RANDOM".
\<close>

datatype key_kind = CPF | CNPJ | EMAIL | PHONE | RANDOM

text \<open>
  Modelled from the spec: the missing encoder's \<open>PaymentKey\<close>, "a tagged value with
  kind and a raw string value".
\<close>

record PaymentKey =
  kind :: key_kind
  raw :: string

text \<open>Modelled from the spec: the missing encoder's \<open>Receiver\<close>, "name: string, city: string".\<close>

record Receiver =
  name :: string
  city :: string

text \<open>
  Modelled from the spec: the amount of the missing builder, a "decimal string", split
  at its decimal point into integer and fraction digits.
\<close>

definition amount_parts :: "string \<Rightarrow> string \<times> string" where
  "amount_parts a =
     (takeWhile (\<lambda>c. c \<noteq> CHR ''.'') a, drop 1 (dropWhile (\<lambda>c. c \<noteq> CHR ''.'') a))"

text \<open>
  Modelled from the spec: the zero amount of the missing builder ("omitted entirely
  when amount is absent/zero"): every digit is 0.
\<close>

definition amount_is_zero :: "string \<Rightarrow> bool" where
  "amount_is_zero a =
     (case amount_parts a of (i, f) \<Rightarrow> list_all (\<lambda>c. c = CHR ''0'') (i @ f))"

text \<open>
  Modelled from the spec: the amount of field 54 in the missing builder, "formatted
  with exactly two fraction digits and no thousands separator".
\<close>

definition format_amount :: "string \<Rightarrow> string" where
  "format_amount a = (case amount_parts a of (i, f) \<Rightarrow> i @ ''.'' @ take 2 (f @ ''00''))"

text \<open>
  Modelled from the spec: the "fixed field sequence" 1 to 10 of the missing
  \<open>build_payload\<close>, for the normalized key, name and city: the format indicator, the
  merchant account information, the category code, the currency, the amount when there
  is one, the country, the name cut to 25 bytes, the city cut to 15 bytes, the additional
  data with the reference cut to 25 bytes or the placeholder, and the literal
  \<open>6304\<close>.
\<close>

definition payload_fields ::
  "string \<Rightarrow> string \<Rightarrow> string \<Rightarrow> string option \<Rightarrow> string option \<Rightarrow>
   (payload_error + string) list" where
  "payload_fields k merchant_name merchant_city amount reference =
     [encode_field ''00'' ''01'',
      encode_template ''26''
        [encode_field ''00'' ''BR.GOV.BCB.PIX'', encode_field ''01'' k],
      encode_field ''52'' ''0000'',
      encode_field ''53'' ''986'',
      (case amount of
         None \<Rightarrow> Inr []
       | Some a \<Rightarrow>
           if amount_is_zero a then Inr [] else encode_field ''54'' (format_amount a)),
      encode_field ''58'' ''BR'',
      encode_field ''59'' (take 25 merchant_name),
      encode_field ''60'' (take 15 merchant_city),
      encode_template ''62''
        [encode_field ''05''
           (case reference of
              None \<Rightarrow> ''***''
            | Some r \<Rightarrow> if r = [] then ''***'' else take 25 r)],
      Inr ''6304'']"

text \<open>
  Modelled from the spec: the missing \<open>build_payload\<close>. It "fails with
  MissingFieldError if key, receiver name, or receiver city is empty after
  normalization", and the "final payload = pre-CRC string + checksum". The spec leaves
  the normalization rules open, so the two normalizers are parameters.
\<close>

definition build_payload ::
  "(PaymentKey \<Rightarrow> string) \<Rightarrow> (string \<Rightarrow> string) \<Rightarrow>
   PaymentKey \<Rightarrow> Receiver \<Rightarrow> string option \<Rightarrow> string option \<Rightarrow> payload_error + string" where
  "build_payload normalize_key normalize_text key receiver amount reference =
     (let k = normalize_key key;
          merchant_name = normalize_text (name receiver);
          merchant_city = normalize_text (city receiver)
      in if k = [] \<or> merchant_name = [] \<or> merchant_city = [] then Inl MissingFieldError
         else
           (case concat_fields (payload_fields k merchant_name merchant_city amount reference) of
              Inl e \<Rightarrow> Inl e
            | Inr pre \<Rightarrow> Inr (pre @ crc16_ccitt_false pre)))"


section \<open>Properties of the CSV import\<close>

lemma push_line_acc: "push_line acc l = acc @ push_line [] l"
  by (simp add: push_line_def split: list.splits)

lemma foldl_push_line: "foldl push_line acc ls = acc @ concat (map (push_line []) ls)"
proof (induction ls arbitrary: acc)
  case Nil
  then show ?case by simp
next
  case (Cons l ls)
  have "foldl push_line acc (l # ls) = foldl push_line (push_line acc l) ls"
    by simp
  also have "\<dots> = push_line acc l @ concat (map (push_line []) ls)"
    by (rule Cons.IH)
  also have "\<dots> = acc @ push_line [] l @ concat (map (push_line []) ls)"
    using push_line_acc [of acc l] by simp
  finally show ?case by simp
qed

lemma parse_csv_to_pagadores_concat:
  "parse_csv_to_pagadores csv =
     concat (map (push_line []) (filter (\<lambda>line. line \<noteq> []) (map js_trim (js_split 0x0A csv))))"
  by (simp add: parse_csv_to_pagadores_def foldl_push_line)

lemma push_line_cases:
  "push_line [] l = [] \<or>
   (\<exists>r v rest. map js_trim (js_split 0x3B l) = r # v # rest \<and> r \<noteq> [] \<and> v \<noteq> [] \<and>
      push_line [] l = [\<lparr>referencia = take 20 r, valor = strip_valor v\<rparr>])"
  by (simp add: push_line_def split: list.splits)

lemma push_line_length:
  "length (push_line [] (js_trim l)) = (if has_both_fields l then 1 else 0)"
  by (simp add: push_line_def has_both_fields_def split: list.splits)

lemma has_both_fields_nonblank: "has_both_fields l \<Longrightarrow> js_trim l \<noteq> []"
  by (auto simp: has_both_fields_def)

lemma length_concat_push_line:
  "length (concat (map (push_line []) (filter (\<lambda>line. line \<noteq> []) (map js_trim ls)))) =
     length (filter has_both_fields ls)"
proof (induction ls)
  case Nil
  then show ?case by simp
next
  case (Cons l ls)
  show ?case
  proof (cases "js_trim l = []")
    case True
    then have "\<not> has_both_fields l"
      using has_both_fields_nonblank by blast
    with True Cons.IH show ?thesis by simp
  next
    case False
    with Cons.IH show ?thesis by (simp add: push_line_length)
  qed
qed

lemma push_line_pagador_of_line:
  "push_line [] (js_trim l) = (if has_both_fields l then [pagador_of_line l] else [])"
  by (simp add: push_line_def has_both_fields_def pagador_of_line_def split: list.splits)

lemma concat_push_line:
  "concat (map (push_line []) (filter (\<lambda>line. line \<noteq> []) (map js_trim ls))) =
     map pagador_of_line (filter has_both_fields ls)"
proof (induction ls)
  case Nil
  then show ?case by simp
next
  case (Cons l ls)
  show ?case
  proof (cases "js_trim l = []")
    case True
    then have "\<not> has_both_fields l"
      using has_both_fields_nonblank by blast
    with True Cons.IH show ?thesis by simp
  next
    case False
    with Cons.IH show ?thesis by (simp add: push_line_pagador_of_line)
  qed
qed

text \<open>The equations that evaluate the parser on a given file.\<close>

lemmas csv_eval = parse_csv_to_pagadores_def push_line_def strip_valor_def js_def js_trim_def
  is_js_whitespace_def has_both_fields_def pagador_of_line_def Let_def

text \<open>
  Claim C10, as the code has it. Every element of the list returned by
  \<open>parse_csv_to_pagadores\<close> has a non-empty \<open>referencia\<close> of at most 20 code units,
  and comes from a line of the file whose first two trimmed pieces \<open>r\<close> and \<open>v\<close> are
  both non-empty: its \<open>referencia\<close> is the first 20 code units of \<open>r\<close>, and its
  \<open>valor\<close> is \<open>v\<close> after the first occurrence of \<open>R$ \<close> has been removed, then the
  first occurrence of \<open>R$\<close>, and the first comma has been replaced by a dot. The lines
  that are blank or lack one of the two pieces contribute no element, and every
  other line contributes exactly one, its own, in the order of the file: the list is
  the list of the lines with both pieces, each turned into its payer. Nothing is said
  about the \<open>valor\<close> being non-empty after the removals.
\<close>

theorem parse_csv_to_pagadores_elements:
  "(\<forall>p \<in> set (parse_csv_to_pagadores csv).
      referencia p \<noteq> [] \<and> length (referencia p) \<le> 20 \<and>
      (\<exists>line \<in> set (js_split 0x0A csv). \<exists>r v rest.
          map js_trim (js_split 0x3B (js_trim line)) = r # v # rest \<and>
          r \<noteq> [] \<and> v \<noteq> [] \<and>
          referencia p = take 20 r \<and> valor p = strip_valor v)) \<and>
   parse_csv_to_pagadores csv =
     map pagador_of_line (filter has_both_fields (js_split 0x0A csv)) \<and>
   length (parse_csv_to_pagadores csv) = length (filter has_both_fields (js_split 0x0A csv))"
proof (intro conjI ballI)
  fix p
  assume "p \<in> set (parse_csv_to_pagadores csv)"
  then obtain line where line: "line \<in> set (js_split 0x0A csv)"
    and p: "p \<in> set (push_line [] (js_trim line))"
    by (auto simp: parse_csv_to_pagadores_concat)
  from push_line_cases [of "js_trim line"] p
  obtain r v rest where f: "map js_trim (js_split 0x3B (js_trim line)) = r # v # rest"
    and nz: "r \<noteq> []" "v \<noteq> []"
    and eq: "p = \<lparr>referencia = take 20 r, valor = strip_valor v\<rparr>"
    by auto
  from nz eq show "referencia p \<noteq> []" by simp
  from eq show "length (referencia p) \<le> 20" by simp
  from line f nz eq
  show "\<exists>line \<in> set (js_split 0x0A csv). \<exists>r v rest.
          map js_trim (js_split 0x3B (js_trim line)) = r # v # rest \<and>
          r \<noteq> [] \<and> v \<noteq> [] \<and>
          referencia p = take 20 r \<and> valor p = strip_valor v"
    by (intro bexI [of _ line] exI [of _ r] exI [of _ v] exI [of _ rest]) simp_all
next
  show "parse_csv_to_pagadores csv =
      map pagador_of_line (filter has_both_fields (js_split 0x0A csv))"
    by (simp add: parse_csv_to_pagadores_concat concat_push_line)
next
  show "length (parse_csv_to_pagadores csv) =
      length (filter has_both_fields (js_split 0x0A csv))"
    by (simp add: parse_csv_to_pagadores_concat length_concat_push_line)
qed

text \<open>
  The theorem at a file of four lines: a line with three pieces and a line end CR LF,
  a blank line, a line without a first piece, and a line whose value has two commas.
\<close>

theorem parse_csv_to_pagadores_elements_witness:
  "parse_csv_to_pagadores
     (js ''abcdefghijklmnopqrstuvwxyz; R$ 10,50 ; x'' @ [0x0D, 0x0A, 0x0A] @ js '';5'' @
      [0x0A] @ js ''joao;7,5,1'') =
     [\<lparr>referencia = js ''abcdefghijklmnopqrst'', valor = js ''10.50''\<rparr>,
      \<lparr>referencia = js ''joao'', valor = js ''7.5,1''\<rparr>] \<and>
   map pagador_of_line (filter has_both_fields (js_split 0x0A
     (js ''abcdefghijklmnopqrstuvwxyz; R$ 10,50 ; x'' @ [0x0D, 0x0A, 0x0A] @ js '';5'' @
      [0x0A] @ js ''joao;7,5,1''))) =
     [\<lparr>referencia = js ''abcdefghijklmnopqrst'', valor = js ''10.50''\<rparr>,
      \<lparr>referencia = js ''joao'', valor = js ''7.5,1''\<rparr>] \<and>
   filter has_both_fields (js_split 0x0A
     (js ''abcdefghijklmnopqrstuvwxyz; R$ 10,50 ; x'' @ [0x0D, 0x0A, 0x0A] @ js '';5'' @
      [0x0A] @ js ''joao;7,5,1'')) =
     [js ''abcdefghijklmnopqrstuvwxyz; R$ 10,50 ; x'' @ [0x0D], js ''joao;7,5,1'']"
  using parse_csv_to_pagadores_elements
    [of "js ''abcdefghijklmnopqrstuvwxyz; R$ 10,50 ; x'' @ [0x0D, 0x0A, 0x0A] @ js '';5'' @
      [0x0A] @ js ''joao;7,5,1''"]
  by (simp add: csv_eval)

text \<open>
  Claim C10 as stated fails. The line \<open>a;R$\<close> passes the guard, and its \<open>valor\<close> is
  empty once \<open>R$\<close> is removed; and since only the first occurrence is removed, the
  \<open>valor\<close> of the line \<open>a;R$R$R$5\<close> still starts with \<open>R$\<close>.
\<close>

theorem parse_csv_to_pagadores_valor_counterexample:
  "parse_csv_to_pagadores (js ''a;R$'') = [\<lparr>referencia = js ''a'', valor = []\<rparr>] \<and>
   parse_csv_to_pagadores (js ''a;R$R$R$5'') =
     [\<lparr>referencia = js ''a'', valor = js ''R$R$5''\<rparr>]"
  by (simp add: csv_eval)


section \<open>Properties of the payer rows\<close>

text \<open>The button is part of the markup of \<open>adicionar_pagador\<close>, whatever the counter.\<close>

lemma querySelector_valor_div_children:
  "querySelector_id ''remove-pagador'' (valor_div_children trash qtd) =
     Some (Element ''button'' ''remove-pagador'' trash)"
  by (simp add: valor_div_children_def)

lemma adicionar_pagador_qtd:
  "pagadores_div s = Some rows \<Longrightarrow>
     qtd_pagadores (adicionar_pagador trash s) = qtd_pagadores s + 1"
  by (simp add: adicionar_pagador_def querySelector_valor_div_children Let_def)

lemma adicionar_pagador_csv_result:
  assumes "pagadores_div s = Some rows"
    and "qtd_pagadores s > 1 \<longrightarrow> querySelector_id ''remove-pagador'' valor_div \<noteq> None"
  shows "adicionar_pagador_csv valor_div pagador s =
     s\<lparr>pagadores_div :=
          Some (appendChild (appendChild rows
             \<lparr>row_id = ''pagador-'' @ show_nat (qtd_pagadores s), prefill = Some pagador\<rparr>)
             \<lparr>row_id = ''pagador-'' @ show_nat (qtd_pagadores s), prefill = Some pagador\<rparr>),
        qtd_pagadores := qtd_pagadores s + 2\<rparr>"
  using assms by (auto simp: adicionar_pagador_csv_def Let_def)

lemma appendChild_last: "appendChild rows node \<noteq> [] \<and> last (appendChild rows node) = node"
  by (simp add: appendChild_def)

text \<open>The second \<open>appendChild\<close> of the same row changes nothing.\<close>

lemma appendChild_twice: "appendChild (appendChild rows node) node = appendChild rows node"
  by (simp add: appendChild_def)

lemma importar_pagadores_qtd:
  assumes "pagadores_div s \<noteq> None"
    and "\<forall>(vd, p) \<in> set ps. querySelector_id ''remove-pagador'' vd \<noteq> None"
  shows "qtd_pagadores (importar_pagadores ps s) = qtd_pagadores s + 2 * length ps \<and>
         pagadores_div (importar_pagadores ps s) \<noteq> None"
  using assms
proof (induction ps arbitrary: s)
  case Nil
  then show ?case by (simp add: importar_pagadores_def)
next
  case (Cons a ps)
  obtain vd p where a: "a = (vd, p)" by (cases a)
  from Cons.prems obtain rows where rows: "pagadores_div s = Some rows" by auto
  from Cons.prems a have found: "querySelector_id ''remove-pagador'' vd \<noteq> None" by simp
  let ?s1 = "adicionar_pagador_csv vd p s"
  have s1: "qtd_pagadores ?s1 = qtd_pagadores s + 2" "pagadores_div ?s1 \<noteq> None"
    using adicionar_pagador_csv_result [OF rows, of vd p] found by simp_all
  have step: "importar_pagadores (a # ps) s = importar_pagadores ps ?s1"
    by (simp add: importar_pagadores_def a)
  from Cons.prems have rest: "\<forall>(vd, p) \<in> set ps. querySelector_id ''remove-pagador'' vd \<noteq> None"
    by simp
  from Cons.IH [OF s1(2) rest] s1(1) step show ?case by simp
qed

lemma importar_pagadores_snoc:
  "importar_pagadores (ps @ [(vd, p)]) s = adicionar_pagador_csv vd p (importar_pagadores ps s)"
  by (simp add: importar_pagadores_def)

lemma importar_pagadores_row_id:
  assumes "pagadores_div s \<noteq> None"
    and "\<forall>(vd, p) \<in> set ps. querySelector_id ''remove-pagador'' vd \<noteq> None"
    and "k < length ps"
  shows "\<exists>rows. pagadores_div (importar_pagadores (take (Suc k) ps) s) = Some rows \<and>
           rows \<noteq> [] \<and>
           row_id (last rows) = ''pagador-'' @ show_nat (qtd_pagadores s + 2 * k)"
proof -
  obtain vd p where nth: "ps ! k = (vd, p)" by (cases "ps ! k")
  let ?s0 = "importar_pagadores (take k ps) s"
  have sub: "\<forall>(vd, p) \<in> set (take k ps). querySelector_id ''remove-pagador'' vd \<noteq> None"
    using assms(2) by (auto dest: in_set_takeD)
  from importar_pagadores_qtd [OF assms(1) sub] assms(3)
  have q0: "qtd_pagadores ?s0 = qtd_pagadores s + 2 * k" and d0: "pagadores_div ?s0 \<noteq> None"
    by simp_all
  from d0 obtain rows0 where rows0: "pagadores_div ?s0 = Some rows0" by auto
  have "(vd, p) \<in> set ps" using nth assms(3) by (metis nth_mem)
  with assms(2) have found: "querySelector_id ''remove-pagador'' vd \<noteq> None" by auto
  have "take (Suc k) ps = take k ps @ [(vd, p)]"
    using assms(3) nth by (simp add: take_Suc_conv_app_nth)
  then have "importar_pagadores (take (Suc k) ps) s = adicionar_pagador_csv vd p ?s0"
    by (simp add: importar_pagadores_snoc)
  also have "\<dots> = ?s0\<lparr>pagadores_div :=
          Some (appendChild (appendChild rows0
             \<lparr>row_id = ''pagador-'' @ show_nat (qtd_pagadores ?s0), prefill = Some p\<rparr>)
             \<lparr>row_id = ''pagador-'' @ show_nat (qtd_pagadores ?s0), prefill = Some p\<rparr>),
        qtd_pagadores := qtd_pagadores ?s0 + 2\<rparr>"
    using adicionar_pagador_csv_result [OF rows0, of vd p] found by simp
  finally show ?thesis
    using appendChild_last q0 by simp
qed

text \<open>
  Claim C9. A call of \<open>adicionar_pagador_csv\<close> with a non-null \<open>pagadores_div\<close> and,
  when \<open>qtd_pagadores > 1\<close>, a found remove button leaves the counter 2 higher; a call
  of \<open>adicionar_pagador\<close> with a non-null \<open>pagadores_div\<close> leaves it 1 higher. So when
  a list of payers is imported (every remove button found), the row made for payer
  number \<open>k\<close>, counted from 0, is the last child of \<open>pagadores_div\<close> after its call and
  has the id \<open>pagador-\<close> followed by the starting count plus \<open>2 * k\<close>: the ids skip every
  other index.
\<close>

theorem qtd_pagadores_increments:
  "(pagadores_div s \<noteq> None \<and>
      (qtd_pagadores s > 1 \<longrightarrow> querySelector_id ''remove-pagador'' valor_div \<noteq> None) \<longrightarrow>
      qtd_pagadores (adicionar_pagador_csv valor_div pagador s) = qtd_pagadores s + 2) \<and>
   (pagadores_div s \<noteq> None \<longrightarrow>
      qtd_pagadores (adicionar_pagador trash s) = qtd_pagadores s + 1) \<and>
   (pagadores_div s \<noteq> None \<and>
      (\<forall>(vd, p) \<in> set ps. querySelector_id ''remove-pagador'' vd \<noteq> None) \<longrightarrow>
      (\<forall>k < length ps. \<exists>rows.
          pagadores_div (importar_pagadores (take (Suc k) ps) s) = Some rows \<and> rows \<noteq> [] \<and>
          row_id (last rows) = ''pagador-'' @ show_nat (qtd_pagadores s + 2 * k)))"
proof (intro conjI impI allI)
  assume a: "pagadores_div s \<noteq> None \<and>
      (qtd_pagadores s > 1 \<longrightarrow> querySelector_id ''remove-pagador'' valor_div \<noteq> None)"
  then obtain rows where "pagadores_div s = Some rows" by auto
  from adicionar_pagador_csv_result [OF this, of valor_div pagador] a
  show "qtd_pagadores (adicionar_pagador_csv valor_div pagador s) = qtd_pagadores s + 2"
    by simp
next
  assume "pagadores_div s \<noteq> None"
  then show "qtd_pagadores (adicionar_pagador trash s) = qtd_pagadores s + 1"
    by (auto simp: adicionar_pagador_qtd)
next
  fix k
  assume "pagadores_div s \<noteq> None \<and>
      (\<forall>(vd, p) \<in> set ps. querySelector_id ''remove-pagador'' vd \<noteq> None)"
    and "k < length ps"
  then show "\<exists>rows.
          pagadores_div (importar_pagadores (take (Suc k) ps) s) = Some rows \<and> rows \<noteq> [] \<and>
          row_id (last rows) = ''pagador-'' @ show_nat (qtd_pagadores s + 2 * k)"
    using importar_pagadores_row_id [of s ps k] by blast
qed

text \<open>
  The theorem at the form as \<open>init\<close> leaves it (one empty row, the counter at 2), with
  two payers whose markup holds the button: the counter goes from 2 to 4 with the CSV
  method and from 2 to 3 with the other, and the second imported row is \<open>pagador-4\<close>.
\<close>

theorem qtd_pagadores_increments_witness:
  "qtd_pagadores (adicionar_pagador_csv (valor_div_children [] 2)
      \<lparr>referencia = js ''joao'', valor = js ''10.50''\<rparr>
      \<lparr>pagadores_div = Some [\<lparr>row_id = ''pagador-1'', prefill = None\<rparr>],
       qtd_pagadores = 2, console = []\<rparr>) = 4 \<and>
   qtd_pagadores (adicionar_pagador []
      \<lparr>pagadores_div = Some [\<lparr>row_id = ''pagador-1'', prefill = None\<rparr>],
       qtd_pagadores = 2, console = []\<rparr>) = 3 \<and>
   (\<exists>rows. pagadores_div (importar_pagadores
        [(valor_div_children [] 2, \<lparr>referencia = js ''joao'', valor = js ''10.50''\<rparr>),
         (valor_div_children [] 4, \<lparr>referencia = js ''ana'', valor = js ''7.00''\<rparr>)]
        \<lparr>pagadores_div = Some [\<lparr>row_id = ''pagador-1'', prefill = None\<rparr>],
         qtd_pagadores = 2, console = []\<rparr>) = Some rows \<and>
      rows \<noteq> [] \<and> row_id (last rows) = ''pagador-4'')"
proof -
  let ?s = "\<lparr>pagadores_div = Some [\<lparr>row_id = ''pagador-1'', prefill = None\<rparr>],
       qtd_pagadores = 2, console = []\<rparr>"
  let ?p = "\<lparr>referencia = js ''joao'', valor = js ''10.50''\<rparr>"
  let ?ps = "[(valor_div_children [] 2, ?p),
         (valor_div_children [] 4, \<lparr>referencia = js ''ana'', valor = js ''7.00''\<rparr>)]"
  note t = qtd_pagadores_increments [of ?s "valor_div_children [] 2" ?p "[]" ?ps]
  have div: "pagadores_div ?s \<noteq> None" by simp
  have btn: "querySelector_id ''remove-pagador'' (valor_div_children [] 2) \<noteq> None"
    by (simp add: querySelector_valor_div_children)
  have btns: "\<forall>(vd, p) \<in> set ?ps. querySelector_id ''remove-pagador'' vd \<noteq> None"
    by (simp add: querySelector_valor_div_children)
  have four: "''pagador-'' @ show_nat (qtd_pagadores ?s + 2 * 1) = ''pagador-4''"
    by (simp add: show_nat.simps digit_char_def)
  from t div btn have c1: "qtd_pagadores (adicionar_pagador_csv (valor_div_children [] 2) ?p ?s) = 4"
    by simp
  from t div have c2: "qtd_pagadores (adicionar_pagador [] ?s) = 3"
    by simp
  from t div btns have "\<forall>k < length ?ps. \<exists>rows.
          pagadores_div (importar_pagadores (take (Suc k) ?ps) ?s) = Some rows \<and> rows \<noteq> [] \<and>
          row_id (last rows) = ''pagador-'' @ show_nat (qtd_pagadores ?s + 2 * k)"
    by blast
  moreover have "(1::nat) < length ?ps" by simp
  ultimately have "\<exists>rows.
          pagadores_div (importar_pagadores (take (Suc 1) ?ps) ?s) = Some rows \<and> rows \<noteq> [] \<and>
          row_id (last rows) = ''pagador-'' @ show_nat (qtd_pagadores ?s + 2 * 1)"
    by blast
  moreover have "take (Suc 1) ?ps = ?ps" by simp
  ultimately have c3: "\<exists>rows. pagadores_div (importar_pagadores ?ps ?s) = Some rows \<and>
      rows \<noteq> [] \<and> row_id (last rows) = ''pagador-4''"
    by (simp only: four)
  from c1 c2 c3 show ?thesis by blast
qed


section \<open>Properties of the payload encoder\<close>

lemma funpow8: "(f ^^ 8) x = f (f (f (f (f (f (f (f x)))))))"
  by (simp add: numeral_eq_Suc)

text \<open>The model of the checksum gives the check value of CRC-16/CCITT-FALSE.\<close>

lemma crc16_check_value: "crc16 ''123456789'' = 0x29B1"
  by (simp add: crc16_def crc16_byte_def crc16_bit_def funpow8)

lemma concat_fields_Cons_Inr:
  "concat_fields (f # fs) = Inr s \<Longrightarrow> \<exists>a b. f = Inr a \<and> concat_fields fs = Inr b \<and> s = a @ b"
  by (auto split: sum.splits)

lemma concat_fields_snoc_Inr:
  "concat_fields (fs @ [Inr x]) = Inr s \<Longrightarrow> \<exists>b. s = b @ x"
  by (induction fs arbitrary: s) (auto split: sum.splits)

lemma hex_digit_in: "d < 16 \<Longrightarrow> hex_digit d \<in> set ''0123456789ABCDEF''"
  unfolding hex_digit_def by (rule nth_mem) simp

lemma hex4_format: "length (hex4 n) = 4 \<and> set (hex4 n) \<subseteq> set ''0123456789ABCDEF''"
  using hex_digit_in [of "n div 4096 mod 16"] hex_digit_in [of "n div 256 mod 16"]
    hex_digit_in [of "n div 16 mod 16"] hex_digit_in [of "n mod 16"]
  by (simp add: hex4_def)

lemma lt16_cases:
  "d < 16 \<Longrightarrow> d = 0 \<or> d = 1 \<or> d = 2 \<or> d = 3 \<or> d = 4 \<or> d = 5 \<or> d = 6 \<or> d = 7 \<or>
     d = 8 \<or> d = 9 \<or> d = 10 \<or> d = 11 \<or> d = 12 \<or> d = 13 \<or> d = 14 \<or> d = (15::nat)"
  by arith

lemma hex_digit_value_hex_digit: "d < 16 \<Longrightarrow> hex_digit_value (hex_digit d) = d"
  using lt16_cases [of d] by (auto simp: hex_digit_value_def hex_digit_def)

text \<open>The four digits read back give the number they were made from.\<close>

lemma hex_value_hex4:
  assumes "n < 65536"
  shows "hex_value (hex4 n) = n"
proof -
  define a where "a = n div 16"
  define b where "b = a div 16"
  define c where "c = b div 16"
  have d256: "n div 256 = b" and d4096: "n div 4096 = c"
    by (simp_all add: a_def b_def c_def div_mult2_eq)
  have "c < 16" using assms d4096 by simp
  then have cm: "c mod 16 = c" by simp
  have "hex_value (hex4 n) =
      16 * (16 * (16 * (n div 4096 mod 16) + n div 256 mod 16) + n div 16 mod 16) + n mod 16"
    by (simp add: hex_value_def hex4_def hex_digit_value_hex_digit)
  also have "\<dots> = 16 * (16 * (16 * c + b mod 16) + a mod 16) + n mod 16"
    by (simp add: d256 d4096 cm a_def)
  also have "\<dots> = 16 * (16 * b + a mod 16) + n mod 16"
    by (simp add: c_def)
  also have "\<dots> = 16 * a + n mod 16"
    by (simp add: b_def)
  also have "\<dots> = n"
    by (simp add: a_def)
  finally show ?thesis .
qed

lemma unat_crc16_bound: "unat (crc16 data) < 65536"
  using unsigned_less [of "crc16 data", where 'a = nat] by simp

lemma encode_format_indicator: "encode_field ''00'' ''01'' = Inr ''000201''"
  by (simp add: encode_field_def pad2_def digit_char_def)

lemma payload_fields_shape:
  "\<exists>fs. payload_fields k n c amount reference = encode_field ''00'' ''01'' # fs @ [Inr ''6304'']"
proof -
  have "payload_fields k n c amount reference =
      encode_field ''00'' ''01'' #
        butlast (tl (payload_fields k n c amount reference)) @ [Inr ''6304'']"
    by (simp add: payload_fields_def)
  then show ?thesis by blast
qed

lemma build_payload_shape:
  assumes "build_payload normalize_key normalize_text key receiver amount reference = Inr payload"
  shows "\<exists>mid. payload =
           ''000201'' @ mid @ ''6304'' @ crc16_ccitt_false (''000201'' @ mid @ ''6304'')"
proof -
  define fields where
    "fields = payload_fields (normalize_key key) (normalize_text (name receiver))
       (normalize_text (city receiver)) amount reference"
  from assms obtain pre where
    pre: "concat_fields fields = Inr pre"
    and payload: "payload = pre @ crc16_ccitt_false pre"
    unfolding build_payload_def Let_def fields_def
    by (auto split: if_splits sum.splits)
  from payload_fields_shape obtain fs where
    "fields = encode_field ''00'' ''01'' # fs @ [Inr ''6304'']"
    unfolding fields_def by blast
  with pre have pre': "concat_fields (encode_field ''00'' ''01'' # fs @ [Inr ''6304'']) = Inr pre"
    by simp
  from concat_fields_Cons_Inr [OF pre'] obtain t
    where t: "concat_fields (fs @ [Inr ''6304'']) = Inr t" and p1: "pre = ''000201'' @ t"
    by (auto simp: encode_format_indicator)
  from concat_fields_snoc_Inr [OF t] obtain mid where "t = mid @ ''6304''" by blast
  with p1 payload show ?thesis by auto
qed

text \<open>
  Claim C1, for the encoder as the specification describes it. Whatever the two
  normalizers are, a payload returned by \<open>build_payload\<close> starts with \<open>000201\<close>; what
  stands before its last 4 characters ends with \<open>6304\<close>; its last 4 characters are
  uppercase hexadecimal digits, they are the result of \<open>crc16_ccitt_false\<close> on all that
  stands before them, and read as a hexadecimal number they are the value of the
  CRC-16/CCITT-FALSE register after those bytes.
\<close>

theorem build_payload_crc_trailer:
  assumes "build_payload normalize_key normalize_text key receiver amount reference = Inr payload"
  shows "take 6 payload = ''000201'' \<and>
         (\<exists>body. take (length payload - 4) payload = body @ ''6304'') \<and>
         length (drop (length payload - 4) payload) = 4 \<and>
         set (drop (length payload - 4) payload) \<subseteq> set ''0123456789ABCDEF'' \<and>
         drop (length payload - 4) payload =
           crc16_ccitt_false (take (length payload - 4) payload) \<and>
         hex_value (drop (length payload - 4) payload) =
           unat (crc16 (take (length payload - 4) payload))"
proof -
  from build_payload_shape [OF assms] obtain mid where
    payload: "payload =
      ''000201'' @ mid @ ''6304'' @ crc16_ccitt_false (''000201'' @ mid @ ''6304'')"
    by blast
  define pre where "pre = ''000201'' @ mid @ ''6304''"
  define crc where "crc = crc16_ccitt_false pre"
  have len: "length crc = 4" and hexset: "set crc \<subseteq> set ''0123456789ABCDEF''"
    using hex4_format [of "unat (crc16 pre)"] by (simp_all add: crc_def crc16_ccitt_false_def)
  have p: "payload = pre @ crc" by (simp add: payload pre_def crc_def)
  have tk: "take (length payload - 4) payload = pre"
    and dr: "drop (length payload - 4) payload = crc"
    by (simp_all add: p len)
  have "take 6 payload = ''000201''" by (simp add: payload)
  moreover have "\<exists>body. take (length payload - 4) payload = body @ ''6304''"
    unfolding tk pre_def by (rule exI [of _ "''000201'' @ mid"]) simp
  moreover have "hex_value crc = unat (crc16 pre)"
    unfolding crc_def crc16_ccitt_false_def by (rule hex_value_hex4 [OF unat_crc16_bound])
  ultimately show ?thesis
    unfolding tk dr using len hexset by (simp add: crc_def)
qed

text \<open>
  The scenario of the specification: an e-mail key, the receiver FULANO DE TAL of
  SAO PAULO, the amount 10.00 and the reference PEDIDO1, with the raw key as the
  normalized key and names that are already normalized.
\<close>

lemma crc16_scenario:
  "crc16 ''00020126400014BR.GOV.BCB.PIX0118fulano@example.com520400005303986540510.005802BR5913FULANO DE TAL6009SAO PAULO62110507PEDIDO16304'' = 0xFA6A"
  by (simp add: crc16_def crc16_byte_def crc16_bit_def funpow8)

lemma hex4_scenario: "hex4 64106 = ''FA6A''"
  by (simp add: hex4_def hex_digit_def)

lemma build_payload_scenario:
  "build_payload raw (\<lambda>s. s) \<lparr>kind = EMAIL, raw = ''fulano@example.com''\<rparr>
     \<lparr>name = ''FULANO DE TAL'', city = ''SAO PAULO''\<rparr> (Some ''10.00'') (Some ''PEDIDO1'') =
   Inr ''00020126400014BR.GOV.BCB.PIX0118fulano@example.com520400005303986540510.005802BR5913FULANO DE TAL6009SAO PAULO62110507PEDIDO16304FA6A''"
  unfolding build_payload_def payload_fields_def Let_def
  by (simp add: encode_field_def encode_template_def pad2_def digit_char_def
      amount_is_zero_def amount_parts_def format_amount_def
      crc16_ccitt_false_def crc16_scenario hex4_scenario)

theorem build_payload_crc_trailer_witness:
  "build_payload raw (\<lambda>s. s) \<lparr>kind = EMAIL, raw = ''fulano@example.com''\<rparr>
     \<lparr>name = ''FULANO DE TAL'', city = ''SAO PAULO''\<rparr> (Some ''10.00'') (Some ''PEDIDO1'') =
   Inr ''00020126400014BR.GOV.BCB.PIX0118fulano@example.com520400005303986540510.005802BR5913FULANO DE TAL6009SAO PAULO62110507PEDIDO16304FA6A'' \<and>
   crc16_ccitt_false ''00020126400014BR.GOV.BCB.PIX0118fulano@example.com520400005303986540510.005802BR5913FULANO DE TAL6009SAO PAULO62110507PEDIDO16304'' = ''FA6A'' \<and>
   hex_value ''FA6A'' = unat (crc16 ''00020126400014BR.GOV.BCB.PIX0118fulano@example.com520400005303986540510.005802BR5913FULANO DE TAL6009SAO PAULO62110507PEDIDO16304'')"
proof -
  let ?pre = "''00020126400014BR.GOV.BCB.PIX0118fulano@example.com520400005303986540510.005802BR5913FULANO DE TAL6009SAO PAULO62110507PEDIDO16304''"
  let ?payload = "''00020126400014BR.GOV.BCB.PIX0118fulano@example.com520400005303986540510.005802BR5913FULANO DE TAL6009SAO PAULO62110507PEDIDO16304FA6A''"
  note t = build_payload_crc_trailer [OF build_payload_scenario]
  have dr: "drop (length ?payload - 4) ?payload = ''FA6A''"
    and tk: "take (length ?payload - 4) ?payload = ?pre"
    by simp_all
  from t have "drop (length ?payload - 4) ?payload =
      crc16_ccitt_false (take (length ?payload - 4) ?payload)"
    by (elim conjE)
  then have trailer: "crc16_ccitt_false ?pre = ''FA6A''"
    unfolding dr tk by (rule sym)
  from t have "hex_value (drop (length ?payload - 4) ?payload) =
      unat (crc16 (take (length ?payload - 4) ?payload))"
    by (elim conjE)
  then have val: "hex_value ''FA6A'' = unat (crc16 ?pre)"
    unfolding dr tk .
  from build_payload_scenario trailer val show ?thesis
    by (intro conjI)
qed

end
